theory Spec2Isabelle
  imports Main
begin


section \<open>Numbers: Python floats and python-pptx lengths\<close>

text \<open>
  \<^verbatim>\<open>create_presentation.py\<close> computes every coordinate as a Python \<^verbatim>\<open>float\<close> (an IEEE 754
  binary64 number) and hands it to \<^verbatim>\<open>Inches\<close>, which python-pptx defines as
  \<^verbatim>\<open>int(inches * 914400)\<close>: an integer number of English Metric Units, truncated towards
  zero. Exact rationals would not give the numbers the script gives (\<^verbatim>\<open>Inches(2.05)\<close> is
  1874519, not 1874520), so floats are modelled as they are: a 53-bit significand and a
  binary exponent, every operation rounding its exact result to nearest, ties to even.
  The exponent is unbounded in the model; the script only forms values between 0.06 and
  a small multiple of the number of sections, far from overflow and underflow.
\<close>

type_synonym emu = int

datatype pyfloat = PyFloat (mant: int) (expo: int)
  \<comment> \<open>the value \<open>mant * 2 ^ expo\<close>; normal form: \<open>mant = 0 \<and> expo = 0\<close> or \<open>2 ^ 52 \<le> \<bar>mant\<bar> < 2 ^ 53\<close>\<close>

fun bitlen :: "nat \<Rightarrow> nat" where
  "bitlen n = (if n = 0 then 0 else Suc (bitlen (n div 2)))"

declare bitlen.simps [simp del]

definition round_half_even :: "nat \<Rightarrow> nat \<Rightarrow> nat" where
  \<comment> \<open>\<open>n / 2 ^ k\<close> rounded to the nearest integer, a tie going to the even neighbour\<close>
  "round_half_even n k =
     (if k = 0 then n
      else let q = n div 2 ^ k; r = n mod 2 ^ k; half = 2 ^ (k - 1)
           in if r > half \<or> (r = half \<and> odd q) then q + 1 else q)"

definition fl :: "int \<Rightarrow> int \<Rightarrow> pyfloat" where
  \<comment> \<open>the float nearest to the exact value \<open>m * 2 ^ e\<close>\<close>
  "fl m e =
     (if m = 0 then PyFloat 0 0
      else let a = nat \<bar>m\<bar>; b = bitlen a
           in if b \<le> 53 then PyFloat (m * 2 ^ (53 - b)) (e - int (53 - b))
              else let k = b - 53; q = round_half_even a k
                   in if q = 2 ^ 53 then PyFloat (sgn m * 2 ^ 52) (e + int k + 1)
                      else PyFloat (sgn m * int q) (e + int k))"

definition float_of_int :: "int \<Rightarrow> pyfloat" where
  \<comment> \<open>the conversion Python applies to the \<^verbatim>\<open>int\<close> operand of a mixed operation\<close>
  "float_of_int i = fl i 0"

definition fadd :: "pyfloat \<Rightarrow> pyfloat \<Rightarrow> pyfloat" where
  "fadd x y =
     (let e = min (expo x) (expo y)
      in fl (mant x * 2 ^ nat (expo x - e) + mant y * 2 ^ nat (expo y - e)) e)"

definition fsub :: "pyfloat \<Rightarrow> pyfloat \<Rightarrow> pyfloat" where
  "fsub x y = fadd x (PyFloat (- mant y) (expo y))"

definition fmul :: "pyfloat \<Rightarrow> pyfloat \<Rightarrow> pyfloat" where
  "fmul x y = fl (mant x * mant y) (expo x + expo y)"

definition dec :: "nat \<Rightarrow> nat \<Rightarrow> pyfloat" where
  \<comment> \<open>a decimal literal: \<open>dec 13333 3\<close> is what Python reads for \<^verbatim>\<open>13.333\<close>, the float
      nearest to \<open>n / 10 ^ k\<close>. The quotient is cut after at least 64 bits and a sticky
      bit records whether the cut lost anything, so that \<open>fl\<close> rounds as if it saw the
      exact quotient.\<close>
  "dec n k =
     (let q = 10 ^ k; s = 64 + bitlen q; p = n * 2 ^ s
      in fl (int (2 * (p div q) + (if p mod q = 0 then 0 else 1))) (- int s - 1))"

definition py_int :: "pyfloat \<Rightarrow> int" where
  \<comment> \<open>\<^verbatim>\<open>int(x)\<close>: truncation towards zero\<close>
  "py_int x =
     (if 0 \<le> expo x then mant x * 2 ^ nat (expo x)
      else sgn (mant x) * (\<bar>mant x\<bar> div 2 ^ nat (- expo x)))"

definition Inches :: "pyfloat \<Rightarrow> emu" where
  \<comment> \<open>\<^verbatim>\<open>Inches(x)\<close> for a float \<^verbatim>\<open>x\<close>\<close>
  "Inches inches = py_int (fmul inches (float_of_int 914400))"

definition Inches_int :: "int \<Rightarrow> emu" where
  \<comment> \<open>\<^verbatim>\<open>Inches(n)\<close> for an \<^verbatim>\<open>int\<close> \<^verbatim>\<open>n\<close>, as in \<^verbatim>\<open>Inches(10)\<close>: no float is involved\<close>
  "Inches_int inches = inches * 914400"

definition Pt :: "int \<Rightarrow> emu" where
  \<comment> \<open>\<^verbatim>\<open>Pt(n)\<close> is \<^verbatim>\<open>int(n * 12700)\<close>; the script passes integers only\<close>
  "Pt points = points * 12700"


section \<open>Strings\<close>

text \<open>
  A Python \<^verbatim>\<open>str\<close> is a sequence of Unicode code points. The deck's copy uses U+00BB,
  U+2014 and U+2192, which a byte string cannot hold as single characters, so a string
  is a list of code points here; \<open>ascii\<close> embeds a literal of plain characters.
\<close>

type_synonym pystr = "nat list"

definition ascii :: "string \<Rightarrow> pystr" where
  "ascii s = map of_char s"

fun str :: "nat \<Rightarrow> pystr" where
  "str n = (if n < 10 then [48 + n] else str (n div 10) @ [48 + n mod 10])"
  \<comment> \<open>\<^verbatim>\<open>str(n)\<close> for a non-negative \<^verbatim>\<open>int\<close>: its decimal digits, U+0030 being the digit 0\<close>

declare str.simps [simp del]

definition digits_value :: "pystr \<Rightarrow> nat" where
  \<comment> \<open>the number a string of decimal digits denotes\<close>
  "digits_value ds = foldl (\<lambda>v d. 10 * v + (d - 48)) 0 ds"

definition truthy :: "pystr option \<Rightarrow> bool" where
  \<comment> \<open>\<^verbatim>\<open>if tagline:\<close> for an argument that is \<^verbatim>\<open>None\<close> or a string\<close>
  "truthy s = (case s of None \<Rightarrow> False | Some t \<Rightarrow> t \<noteq> [])"


section \<open>Slides, shapes and text\<close>

datatype RGBColor = RGBColor nat nat nat

definition NAVY :: RGBColor where "NAVY = RGBColor 0 51 102"
definition ROYAL_BLUE :: RGBColor where "ROYAL_BLUE = RGBColor 0 102 153"
definition GOLD :: RGBColor where "GOLD = RGBColor 0 153 153"
definition CHARCOAL :: RGBColor where "CHARCOAL = RGBColor 51 51 51"
definition LIGHT_GRAY :: RGBColor where "LIGHT_GRAY = RGBColor 240 243 245"
definition WHITE :: RGBColor where "WHITE = RGBColor 255 255 255"

datatype MSO_SHAPE = RECTANGLE | ROUNDED_RECTANGLE | OVAL

datatype PP_ALIGN = LEFT | CENTER

text \<open>
  The outline of an autoshape: \<open>LineInherited\<close> is what a new shape has, \<open>LineNoFill\<close> what
  \<^verbatim>\<open>shape.line.fill.background()\<close> leaves, \<open>LineSolid c\<close> what
  \<^verbatim>\<open>shape.line.color.rgb = c\<close> leaves.
\<close>

datatype line_format = LineInherited | LineNoFill | LineSolid RGBColor

record Paragraph =
  ptext :: pystr
  font_size :: "emu option"
  font_bold :: "bool option"
  font_italic :: "bool option"
  font_color :: "RGBColor option"
  alignment :: "PP_ALIGN option"
  space_before :: "emu option"

record text_frame =
  word_wrap :: "bool option"
  paragraphs :: "Paragraph list"

datatype shape =
    is_AutoShape: AutoShape (auto_shape_type: MSO_SHAPE)
      (left_of: emu) (top_of: emu) (width_of: emu) (height_of: emu)
      (fill_rgb: "RGBColor option") (line: line_format)
  | is_TextBox: TextBox (left_of: emu) (top_of: emu) (width_of: emu) (height_of: emu)
      (frame: text_frame)
  | is_Picture: Picture (left_of: emu) (top_of: emu) (width_of: emu) (height_of: emu)

record slide =
  shapes :: "shape list"

record presentation =
  slide_width :: emu
  slide_height :: emu
  slides :: "slide list"

definition Presentation :: presentation where
  \<comment> \<open>\<^verbatim>\<open>Presentation()\<close>: the library's default template, 10 in by 7.5 in, no slide\<close>
  "Presentation = \<lparr>slide_width = 9144000, slide_height = 6858000, slides = []\<rparr>"

definition blank_slide :: slide where
  \<comment> \<open>a slide on layout 6 of the default template, \<^verbatim>\<open>Blank\<close>, which has no placeholder\<close>
  "blank_slide = \<lparr>shapes = []\<rparr>"

definition place :: "shape \<Rightarrow> slide \<Rightarrow> slide" where
  \<comment> \<open>\<^verbatim>\<open>slide.shapes.add_...\<close>: the new shape goes on top of the ones painted before\<close>
  "place s slide = slide\<lparr>shapes := shapes slide @ [s]\<rparr>"

definition new_paragraph :: Paragraph where
  "new_paragraph = \<lparr>ptext = [], font_size = None, font_bold = None, font_italic = None,
     font_color = None, alignment = None, space_before = None\<rparr>"

definition new_text_frame :: text_frame where
  \<comment> \<open>the text frame of a new textbox holds one empty paragraph\<close>
  "new_text_frame = \<lparr>word_wrap = None, paragraphs = [new_paragraph]\<rparr>"

definition first_paragraph :: "(Paragraph \<Rightarrow> Paragraph) \<Rightarrow> text_frame \<Rightarrow> text_frame" where
  \<comment> \<open>\<^verbatim>\<open>p = tf.paragraphs[0]\<close> followed by assignments to \<^verbatim>\<open>p\<close>; the library keeps at
      least one paragraph in every text frame, so the index is never out of range\<close>
  "first_paragraph f tf =
     (case paragraphs tf of
        [] \<Rightarrow> tf
      | p # ps \<Rightarrow> tf\<lparr>paragraphs := f p # ps\<rparr>)"

definition add_paragraph :: "(Paragraph \<Rightarrow> Paragraph) \<Rightarrow> text_frame \<Rightarrow> text_frame" where
  \<comment> \<open>\<^verbatim>\<open>p = tf.add_paragraph()\<close> followed by assignments to \<^verbatim>\<open>p\<close>\<close>
  "add_paragraph f tf = tf\<lparr>paragraphs := paragraphs tf @ [f new_paragraph]\<rparr>"

fun items_loop ::
  "(nat \<Rightarrow> pystr \<Rightarrow> Paragraph \<Rightarrow> Paragraph) \<Rightarrow> nat \<Rightarrow> pystr list \<Rightarrow> text_frame \<Rightarrow> text_frame"
where
  "items_loop body i [] tf = tf"
| "items_loop body i (item # rest) tf =
     items_loop body (Suc i) rest
       (if i = 0 then first_paragraph (body i item) tf
        else add_paragraph (body i item) tf)"
  \<comment> \<open>the three loops \<^verbatim>\<open>for i, item in enumerate(...)\<close> of the script: paragraph 0 is the
      one the frame already has, every later item adds a paragraph; \<open>body\<close> is what the
      loop assigns to \<^verbatim>\<open>p\<close>\<close>

subsection \<open>The logo\<close>

text \<open>
  \<^verbatim>\<open>slide.shapes.add_picture(LOGO_PATH, left, top, height=h)\<close> reads a file outside the
  program. It either raises (the file is missing or is no image) or places a picture
  of the requested height whose width the library derives from the image's proportions.
  The outcome is a parameter of the model: a function from the requested height to what
  the call does.
\<close>

datatype add_picture_outcome = Raises | Places emu

type_synonym logo_resource = "emu \<Rightarrow> add_picture_outcome"

definition try_add_picture :: "logo_resource \<Rightarrow> emu \<Rightarrow> emu \<Rightarrow> emu \<Rightarrow> slide \<Rightarrow> slide" where
  \<comment> \<open>\<^verbatim>\<open>try: slide.shapes.add_picture(...)  except: pass\<close>\<close>
  "try_add_picture logo l t h slide =
     (case logo h of
        Raises \<Rightarrow> slide
      | Places w \<Rightarrow> place (Picture l t w h) slide)"

definition unavailable :: logo_resource where
  "unavailable = (\<lambda>h. Raises)"


section \<open>The three renderers\<close>

text \<open>
  Each renderer adds a blank slide to the presentation, paints its shapes in the order
  of the script's \<^verbatim>\<open>add_shape\<close>, \<^verbatim>\<open>add_picture\<close> and \<^verbatim>\<open>add_textbox\<close> calls, and returns
  the slide. The script sets a shape's fill, outline and text right after creating it
  and before the next shape is created, so the model builds each shape with the
  attributes it ends up with and places it where the script creates it. The result is
  the slide together with the presentation that now holds it.
\<close>

definition add_title_slide ::
  "logo_resource \<Rightarrow> presentation \<Rightarrow> pystr \<Rightarrow> pystr \<Rightarrow> pystr option \<Rightarrow> slide \<times> presentation"
where
  "add_title_slide logo prs title subtitle tagline =
     (let slide = blank_slide;
          bg = AutoShape RECTANGLE 0 0 (Inches (dec 13333 3)) (Inches (dec 75 1))
                 (Some NAVY) LineNoFill;
          slide = place bg slide;
          accent = AutoShape RECTANGLE 0 0 (Inches (dec 13333 3)) (Inches (dec 15 2))
                 (Some GOLD) LineNoFill;
          slide = place accent slide;
          slide = try_add_picture logo (Inches (dec 105 1)) (Inches (dec 4 1))
                 (Inches (dec 8 1)) slide;
          tf = new_text_frame\<lparr>word_wrap := Some True\<rparr>;
          tf = first_paragraph (\<lambda>p. p\<lparr>ptext := title, font_size := Some (Pt 54),
                 font_bold := Some True, font_color := Some WHITE,
                 alignment := Some LEFT\<rparr>) tf;
          title_box = TextBox (Inches (dec 8 1)) (Inches (dec 22 1)) (Inches (dec 11733 3))
                 (Inches (dec 18 1)) tf;
          slide = place title_box slide;
          tf = first_paragraph (\<lambda>p. p\<lparr>ptext := subtitle, font_size := Some (Pt 22),
                 font_color := Some GOLD, alignment := Some LEFT\<rparr>) new_text_frame;
          sub_box = TextBox (Inches (dec 8 1)) (Inches (dec 40 1)) (Inches (dec 11733 3))
                 (Inches (dec 8 1)) tf;
          slide = place sub_box slide;
          bottom = AutoShape RECTANGLE 0 (Inches (dec 68 1)) (Inches (dec 13333 3))
                 (Inches (dec 7 1)) (Some ROYAL_BLUE) LineNoFill;
          slide = place bottom slide;
          slide = (if truthy tagline then
                     (let tf = first_paragraph (\<lambda>p. p\<lparr>ptext := the tagline,
                            font_size := Some (Pt 16), font_color := Some WHITE,
                            alignment := Some LEFT\<rparr>) new_text_frame;
                          tag_box = TextBox (Inches (dec 8 1)) (Inches (dec 69 1))
                            (Inches (dec 11733 3)) (Inches (dec 5 1)) tf
                      in place tag_box slide)
                   else slide)
      in (slide, prs\<lparr>slides := slides prs @ [slide]\<rparr>))"

definition left_item :: "nat \<Rightarrow> pystr \<Rightarrow> Paragraph \<Rightarrow> Paragraph" where
  "left_item i item p = p\<lparr>ptext := item, font_size := Some (Pt 14),
     font_color := Some CHARCOAL, space_before := Some (if i > 0 then Pt 10 else Pt 0)\<rparr>"

definition right_item :: "nat \<Rightarrow> pystr \<Rightarrow> Paragraph \<Rightarrow> Paragraph" where
  "right_item i item p = p\<lparr>ptext := item, font_size := Some (Pt 14),
     font_color := Some WHITE, space_before := Some (if i > 0 then Pt 10 else Pt 0)\<rparr>"

definition add_two_column_slide ::
  "logo_resource \<Rightarrow> presentation \<Rightarrow> pystr \<Rightarrow> pystr \<Rightarrow> pystr list \<Rightarrow> pystr \<Rightarrow> pystr list
     \<Rightarrow> slide \<times> presentation"
where
  "add_two_column_slide logo prs title left_title left_items right_title right_items =
     (let slide = blank_slide;
          header = AutoShape RECTANGLE 0 0 (Inches (dec 13333 3)) (Inches (dec 15 1))
                 (Some NAVY) LineNoFill;
          slide = place header slide;
          gold_line = AutoShape RECTANGLE 0 (Inches (dec 15 1)) (Inches (dec 13333 3))
                 (Inches (dec 6 2)) (Some GOLD) LineNoFill;
          slide = place gold_line slide;
          slide = try_add_picture logo (Inches (dec 115 1)) (Inches (dec 35 2))
                 (Inches (dec 7 1)) slide;
          tf = first_paragraph (\<lambda>p. p\<lparr>ptext := title, font_size := Some (Pt 30),
                 font_bold := Some True, font_color := Some WHITE,
                 alignment := Some LEFT\<rparr>) new_text_frame;
          title_box = TextBox (Inches (dec 6 1)) (Inches (dec 4 1)) (Inches (dec 105 1))
                 (Inches (dec 9 1)) tf;
          slide = place title_box slide;
          left_box = AutoShape ROUNDED_RECTANGLE (Inches (dec 5 1)) (Inches (dec 19 1))
                 (Inches (dec 59 1)) (Inches (dec 50 1)) (Some LIGHT_GRAY)
                 (LineSolid (RGBColor 200 200 200));
          slide = place left_box slide;
          tf = first_paragraph (\<lambda>p. p\<lparr>ptext := left_title, font_size := Some (Pt 20),
                 font_bold := Some True, font_color := Some NAVY\<rparr>) new_text_frame;
          left_header = TextBox (Inches (dec 7 1)) (Inches (dec 21 1)) (Inches (dec 55 1))
                 (Inches (dec 5 1)) tf;
          slide = place left_header slide;
          tf = new_text_frame\<lparr>word_wrap := Some True\<rparr>;
          tf = items_loop left_item 0 left_items tf;
          left_content = TextBox (Inches (dec 7 1)) (Inches (dec 27 1)) (Inches (dec 55 1))
                 (Inches (dec 40 1)) tf;
          slide = place left_content slide;
          right_box = AutoShape ROUNDED_RECTANGLE (Inches (dec 69 1)) (Inches (dec 19 1))
                 (Inches (dec 59 1)) (Inches (dec 50 1)) (Some NAVY) LineNoFill;
          slide = place right_box slide;
          tf = first_paragraph (\<lambda>p. p\<lparr>ptext := right_title, font_size := Some (Pt 20),
                 font_bold := Some True, font_color := Some GOLD\<rparr>) new_text_frame;
          right_header = TextBox (Inches (dec 71 1)) (Inches (dec 21 1)) (Inches (dec 55 1))
                 (Inches (dec 5 1)) tf;
          slide = place right_header slide;
          tf = new_text_frame\<lparr>word_wrap := Some True\<rparr>;
          tf = items_loop right_item 0 right_items tf;
          right_content = TextBox (Inches (dec 71 1)) (Inches (dec 27 1)) (Inches (dec 55 1))
                 (Inches (dec 40 1)) tf;
          slide = place right_content slide
      in (slide, prs\<lparr>slides := slides prs @ [slide]\<rparr>))"

record section_spec =
  header :: pystr
  items :: "pystr list"
  \<comment> \<open>the dictionaries of \<^verbatim>\<open>sections\<close>; the script reads the keys \<^verbatim>\<open>'header'\<close> and
      \<^verbatim>\<open>'items'\<close> and no other\<close>

definition section_width :: pyfloat where "section_width = dec 39 1"
definition section_gap :: pyfloat where "section_gap = dec 3 1"
definition start_x :: pyfloat where "start_x = dec 5 1"

definition x_pos :: "nat \<Rightarrow> pyfloat" where
  \<comment> \<open>\<^verbatim>\<open>x_pos = start_x + i * (section_width + section_gap)\<close>\<close>
  "x_pos i = fadd start_x (fmul (float_of_int (int i)) (fadd section_width section_gap))"

definition bullet :: "pystr \<Rightarrow> pystr" where
  \<comment> \<open>the f-string that puts U+00BB and a space before the item\<close>
  "bullet item = [187, 32] @ item"

definition section_item :: "nat \<Rightarrow> pystr \<Rightarrow> Paragraph \<Rightarrow> Paragraph" where
  "section_item j item p = p\<lparr>ptext := bullet item, font_size := Some (Pt 12),
     font_color := Some CHARCOAL, space_before := Some (if j > 0 then Pt 8 else Pt 0)\<rparr>"

fun sections_loop :: "nat \<Rightarrow> section_spec list \<Rightarrow> slide \<Rightarrow> slide" where
  "sections_loop i [] slide = slide"
| "sections_loop i (sec # rest) slide =
     (let box = AutoShape ROUNDED_RECTANGLE (Inches (x_pos i)) (Inches (dec 185 2))
                 (Inches section_width) (Inches (dec 53 1)) (Some LIGHT_GRAY)
                 (LineSolid (RGBColor 200 200 200));
          slide = place box slide;
          circle = AutoShape OVAL (Inches (fadd (x_pos i) (dec 15 2))) (Inches (dec 20 1))
                 (Inches (dec 45 2)) (Inches (dec 45 2)) (Some ROYAL_BLUE) LineNoFill;
          slide = place circle slide;
          tf = first_paragraph (\<lambda>p. p\<lparr>ptext := str (i + 1), font_size := Some (Pt 18),
                 font_bold := Some True, font_color := Some WHITE,
                 alignment := Some CENTER\<rparr>) new_text_frame;
          num_box = TextBox (Inches (fadd (x_pos i) (dec 15 2))) (Inches (dec 205 2))
                 (Inches (dec 45 2)) (Inches (dec 4 1)) tf;
          slide = place num_box slide;
          tf = new_text_frame\<lparr>word_wrap := Some True\<rparr>;
          tf = first_paragraph (\<lambda>p. p\<lparr>ptext := header sec, font_size := Some (Pt 15),
                 font_bold := Some True, font_color := Some NAVY\<rparr>) tf;
          header_box = TextBox (Inches (fadd (x_pos i) (dec 7 1))) (Inches (dec 20 1))
                 (Inches (fsub section_width (dec 9 1))) (Inches (dec 6 1)) tf;
          slide = place header_box slide;
          tf = new_text_frame\<lparr>word_wrap := Some True\<rparr>;
          tf = items_loop section_item 0 (items sec) tf;
          items_box = TextBox (Inches (fadd (x_pos i) (dec 2 1))) (Inches (dec 265 2))
                 (Inches (fsub section_width (dec 4 1))) (Inches (dec 43 1)) tf;
          slide = place items_box slide
      in sections_loop (Suc i) rest slide)"
  \<comment> \<open>\<^verbatim>\<open>for i, section in enumerate(sections)\<close>: one card per section\<close>

definition add_content_slide_with_sections ::
  "logo_resource \<Rightarrow> presentation \<Rightarrow> pystr \<Rightarrow> section_spec list \<Rightarrow> pystr option
     \<Rightarrow> slide \<times> presentation"
where
  "add_content_slide_with_sections logo prs title sections personalized_for =
     (let slide = blank_slide;
          header = AutoShape RECTANGLE 0 0 (Inches (dec 13333 3)) (Inches (dec 15 1))
                 (Some NAVY) LineNoFill;
          slide = place header slide;
          gold_line = AutoShape RECTANGLE 0 (Inches (dec 15 1)) (Inches (dec 13333 3))
                 (Inches (dec 6 2)) (Some GOLD) LineNoFill;
          slide = place gold_line slide;
          slide = try_add_picture logo (Inches (dec 115 1)) (Inches (dec 35 2))
                 (Inches (dec 7 1)) slide;
          slide = (if truthy personalized_for then
                     (let tf = first_paragraph (\<lambda>p. p\<lparr>ptext := the personalized_for,
                            font_size := Some (Pt 12), font_italic := Some True,
                            font_color := Some GOLD, alignment := Some LEFT\<rparr>) new_text_frame;
                          pers_box = TextBox (Inches (dec 6 1)) (Inches (dec 11 1))
                            (Inches_int 10) (Inches (dec 3 1)) tf
                      in place pers_box slide)
                   else slide);
          tf = first_paragraph (\<lambda>p. p\<lparr>ptext := title, font_size := Some (Pt 30),
                 font_bold := Some True, font_color := Some WHITE,
                 alignment := Some LEFT\<rparr>) new_text_frame;
          title_box = TextBox (Inches (dec 6 1)) (Inches (dec 4 1)) (Inches (dec 105 1))
                 (Inches (dec 9 1)) tf;
          slide = place title_box slide;
          slide = sections_loop 0 sections slide
      in (slide, prs\<lparr>slides := slides prs @ [slide]\<rparr>))"


section \<open>The script\<close>

text \<open>
  The module creates a presentation, sets the canvas to 13.333 in by 7.5 in, calls the
  renderers four times with literal arguments and saves the result. The item lists of
  the calls are named here after the function that receives them.
\<close>

definition two_column_left_items :: "pystr list" where
  "two_column_left_items =
     [[187] @ ascii '' $2T+ in systematic AUM globally'' @ [8212] @ ascii ''quant now mainstream'',
      [187] @ ascii '' Shift from '' @ [39] @ ascii ''big data'' @ [39] @ ascii '' to '' @ [39] @ ascii ''smart data'' @ [39] @ ascii '' with demonstrable alpha'',
      [187] @ ascii '' ESG integration table stakes, but quality data scarce'',
      [187] @ ascii '' Risk Parity gaining traction: 60/40 portfolios carry 93% equity risk'',
      [187] @ ascii '' AI reshaping both investment process AND distribution expectations'']"

definition two_column_right_items :: "pystr list" where
  "two_column_right_items =
     [[187] @ ascii '' Proprietary data creation: biotech FDA models, NLP sentiment, Chinese social scraping'',
      [187] @ ascii '' '' @ [39] @ ascii ''Discovery & Dollars'' @ [39] @ ascii '' philosophy'' @ [8212] @ ascii ''human-machine synthesis'',
      [187] @ ascii '' Integrated research + portfolio management teams'',
      [187] @ ascii '' Risk Parity leadership: 0.87 vs 0.67 Sharpe (vs 60/40)'',
      [187] @ ascii '' ESG innovation: greenwashing detection via NLP, materiality focus'']"

definition distribution_sections :: "section_spec list" where
  "distribution_sections =
     [\<lparr>header = ascii ''Predictive Lead Scoring'',
       items = [ascii ''ML models on CRM data: score by conversion probability & AUM potential'',
         ascii ''External signals: job changes, RFP activity, regulatory filings, conference attendance'',
         ascii ''Real-time alerts on buying intent: website visits, content downloads'',
         ascii ''Prioritize sales time on highest-value opportunities'']\<rparr>,
      \<lparr>header = ascii ''Hyper-Personalized Outreach'',
       items = [ascii ''AI-drafted communications tailored to portfolio gaps & interests'',
         ascii ''Dynamic content: Risk Parity to consultants, ESG to pensions'',
         ascii ''Adaptive nurture sequences based on engagement patterns'',
         ascii ''Scale personalization without scaling headcount'']\<rparr>,
      \<lparr>header = ascii ''Intelligent Meeting Prep'',
       items = [ascii ''AI briefing docs: holdings, recent allocations, stated concerns'',
         ascii ''Competitive positioning summaries before every pitch'',
         ascii ''Conversation guides highlighting relevant Panagora strengths'',
         ascii ''Post-meeting auto-generated follow-up recommendations'']\<rparr>]"

definition buzz_sections :: "section_spec list" where
  "buzz_sections =
     [\<lparr>header = ascii ''AI-Powered Content Engine'',
       items = [ascii ''Research '' @ [8594] @ ascii '' white papers '' @ [8594] @ ascii '' podcasts '' @ [8594] @ ascii '' social threads '' @ [8594] @ ascii '' video clips'',
         ascii ''Real-time market commentary: AI draft + human polish = speed + quality'',
         ascii ''Interactive '' @ [39] @ ascii ''Risk Parity Portfolio Builder'' @ [39] @ ascii '' for prospects'',
         [39] @ ascii ''Smart Data, Smart Alpha'' @ [39] @ ascii '' thought leadership series'']\<rparr>,
      \<lparr>header = ascii ''Strategic Amplification'',
       items = [ascii ''LinkedIn optimization: timing, hashtags, engagement triggers'',
         ascii ''Earned media: pitch '' @ [39] @ ascii ''Why 60/40 is dead'' @ [39] @ ascii '' angles to financial press'',
         ascii ''Podcast circuit: CIO shows with Eric'' @ [39] @ ascii ''s '' @ [39] @ ascii ''pilot + quant'' @ [39] @ ascii '' narrative'',
         ascii ''Update & amplify Institutional Investor Risk Parity research'']\<rparr>,
      \<lparr>header = ascii ''Community & Events'',
       items = [ascii ''Virtual '' @ [39] @ ascii ''Quant Masterclass'' @ [39] @ ascii '' series'' @ [8212] @ ascii ''exclusive, invite-only'',
         ascii ''AI-powered post-event follow-up within 24 hours'',
         ascii ''Target ICP: diversification seekers, pension CIOs'',
         ascii ''Build long-term relationships, not just transactions'']\<rparr>]"

definition create_presentation :: "logo_resource \<Rightarrow> presentation" where
  \<comment> \<open>the presentation the script saves\<close>
  "create_presentation logo =
     (let prs = Presentation;
          prs = prs\<lparr>slide_width := Inches (dec 13333 3)\<rparr>;
          prs = prs\<lparr>slide_height := Inches (dec 75 1)\<rparr>;
          prs = snd (add_title_slide logo prs
                 (ascii ''Accelerating Growth'' @ [10] @ ascii ''in the AI Era'')
                 (ascii ''Distribution Strategy | Investor Engagement | AUM Expansion'')
                 (Some (ascii ''Panagora Asset Management  |  Strategic Discussion  |  December 2024'')));
          prs = snd (add_two_column_slide logo prs
                 (ascii ''The Quantitative Investing Landscape & Panagora'' @ [39] @ ascii ''s Edge'')
                 (ascii ''MARKET DYNAMICS'') two_column_left_items
                 (ascii ''PANAGORA DIFFERENTIATORS'') two_column_right_items);
          prs = snd (add_content_slide_with_sections logo prs
                 (ascii ''AI-Era Distribution: Intelligent Lead Management & Engagement'')
                 distribution_sections
                 (Some (ascii ''Created for Discussion with Tim Stanton'')));
          prs = snd (add_content_slide_with_sections logo prs
                 (ascii ''Generating Buzz: Thought Leadership & Publicity for Modern Investors'')
                 buzz_sections None)
      in prs)"

definition wide_logo :: logo_resource where
  \<comment> \<open>an image four times as wide as it is high\<close>
  "wide_logo = (\<lambda>h. Places (4 * h))"


section \<open>Reading a rendered slide\<close>

text \<open>
  What the properties below look at. A card is a rounded rectangle together with the
  shapes painted after it, up to the next rounded rectangle.
\<close>

definition is_auto :: "MSO_SHAPE \<Rightarrow> shape \<Rightarrow> bool" where
  "is_auto k s = (is_AutoShape s \<and> auto_shape_type s = k)"

definition texts :: "shape \<Rightarrow> pystr list" where
  \<comment> \<open>the text of each paragraph of a textbox, in order\<close>
  "texts s = map ptext (paragraphs (frame s))"

definition paragraph_count :: "shape \<Rightarrow> nat" where
  "paragraph_count s = length (paragraphs (frame s))"

definition textboxes :: "slide \<Rightarrow> shape list" where
  "textboxes sl = filter is_TextBox (shapes sl)"

definition without_logo :: "slide \<Rightarrow> shape list" where
  "without_logo sl = filter (\<lambda>s. \<not> is_Picture s) (shapes sl)"

fun cards :: "shape list \<Rightarrow> shape list list" where
  "cards [] = []"
| "cards (s # ss) =
     (if is_auto ROUNDED_RECTANGLE s
      then (s # takeWhile (\<lambda>t. \<not> is_auto ROUNDED_RECTANGLE t) ss) # cards ss
      else cards ss)"

definition is_bullet :: "pystr \<Rightarrow> bool" where
  \<comment> \<open>a line that starts with U+00BB and a space\<close>
  "is_bullet t = (take 2 t = [187, 32])"

definition card_shapes :: "nat \<Rightarrow> section_spec \<Rightarrow> shape list" where
  \<comment> \<open>what one turn of the loop over the sections paints\<close>
  "card_shapes i sec = shapes (sections_loop i [sec] blank_slide)"

definition in_canvas :: "presentation \<Rightarrow> shape \<Rightarrow> bool" where
  "in_canvas prs s =
     (0 \<le> left_of s \<and> 0 \<le> top_of s \<and>
      left_of s + width_of s \<le> slide_width prs \<and>
      top_of s + height_of s \<le> slide_height prs)"


section \<open>Evaluating the numbers\<close>

text \<open>
  The functions on floats are evaluated by rewriting, on literals only. The values below
  are the ones CPython computes for the same expressions.
\<close>

lemma bitlen_0: "bitlen 0 = 0"
  by (simp add: bitlen.simps)

lemma bitlen_1: "bitlen (Suc 0) = 1"
  by (simp add: bitlen.simps)

lemma bitlen_numeral: "bitlen (numeral k) = Suc (bitlen (numeral k div 2))"
  by (subst bitlen.simps) simp

lemmas float_eval = fadd_def fsub_def fmul_def fl_def dec_def py_int_def float_of_int_def
  round_half_even_def bitlen_0 bitlen_1 bitlen_numeral Let_def

lemma Inches_literals:
  "Inches (dec 6 2) = 54864"
  "Inches (dec 15 2) = 137160"
  "Inches (dec 2 1) = 182880"
  "Inches (dec 3 1) = 274320"
  "Inches (dec 35 2) = 320040"
  "Inches (dec 4 1) = 365760"
  "Inches (dec 45 2) = 411480"
  "Inches (dec 5 1) = 457200"
  "Inches (dec 6 1) = 548640"
  "Inches (dec 7 1) = 640080"
  "Inches (dec 8 1) = 731520"
  "Inches (dec 9 1) = 822960"
  "Inches (dec 11 1) = 1005840"
  "Inches (dec 15 1) = 1371600"
  "Inches (dec 18 1) = 1645920"
  "Inches (dec 185 2) = 1691640"
  "Inches (dec 19 1) = 1737360"
  "Inches (dec 20 1) = 1828800"
  "Inches (dec 205 2) = 1874519"
  "Inches (dec 21 1) = 1920240"
  "Inches (dec 22 1) = 2011680"
  "Inches (dec 265 2) = 2423160"
  "Inches (dec 27 1) = 2468880"
  "Inches (dec 39 1) = 3566160"
  "Inches (dec 40 1) = 3657600"
  "Inches (dec 43 1) = 3931920"
  "Inches (dec 50 1) = 4572000"
  "Inches (dec 53 1) = 4846320"
  "Inches (dec 55 1) = 5029200"
  "Inches (dec 59 1) = 5394960"
  "Inches (dec 68 1) = 6217920"
  "Inches (dec 69 1) = 6309360"
  "Inches (dec 71 1) = 6492240"
  "Inches (dec 75 1) = 6858000"
  "Inches (dec 105 1) = 9601200"
  "Inches (dec 115 1) = 10515600"
  "Inches (dec 11733 3) = 10728655"
  "Inches (dec 13333 3) = 12191695"
  by (simp_all add: Inches_def float_eval)


section \<open>The loops, unrolled\<close>

lemma shapes_place: "shapes (place s sl) = shapes sl @ [s]"
  by (simp add: place_def)

lemma shapes_try_add_picture:
  "shapes (try_add_picture logo l t h sl) =
     shapes sl @ (case logo h of Raises \<Rightarrow> [] | Places w \<Rightarrow> [Picture l t w h])"
  by (simp add: try_add_picture_def shapes_place split: add_picture_outcome.split)

lemma map_enumerate_snd: "map (\<lambda>(j, x). f x) (enumerate n xs) = map f xs"
  by (induction xs arbitrary: n) simp_all

lemma items_loop_Suc:
  "items_loop body (Suc i) xs tf =
     tf\<lparr>paragraphs := paragraphs tf @
        map (\<lambda>(j, x). body j x new_paragraph) (enumerate (Suc i) xs)\<rparr>"
  by (induction xs arbitrary: i tf) (simp_all add: add_paragraph_def)

lemma items_loop_0_Cons:
  assumes "paragraphs tf = [p]"
  shows "items_loop body 0 (x # rest) tf =
     tf\<lparr>paragraphs := body 0 x p #
        map (\<lambda>(j, x). body j x new_paragraph) (enumerate (Suc 0) rest)\<rparr>"
  using assms by (simp add: items_loop_Suc first_paragraph_def)

lemma items_loop_count:
  assumes "paragraphs tf = [p]"
  shows "length (paragraphs (items_loop body 0 xs tf)) = max 1 (length xs)"
proof (cases xs)
  case Nil
  with assms show ?thesis by simp
next
  case (Cons x rest)
  show ?thesis
    unfolding Cons by (subst items_loop_0_Cons [OF assms]) simp
qed

lemma paragraphs_new_frame:
  "paragraphs (new_text_frame\<lparr>word_wrap := w\<rparr>) = [new_paragraph]"
  "paragraphs new_text_frame = [new_paragraph]"
  by (simp_all add: new_text_frame_def)

lemma section_items_texts:
  assumes "paragraphs tf = [p]"
  shows "map ptext (paragraphs (items_loop section_item 0 xs tf)) =
     (if xs = [] then [ptext p] else map bullet xs)"
proof (cases xs)
  case Nil
  with assms show ?thesis by simp
next
  case (Cons x rest)
  have "map ptext (map (\<lambda>(j, x). section_item j x new_paragraph) (enumerate n rest))
      = map bullet rest" for n
    by (induction rest arbitrary: n) (simp_all add: section_item_def)
  then show ?thesis
    unfolding Cons
    by (subst items_loop_0_Cons [OF assms]) (simp add: section_item_def)
qed

lemma card_shapes_form:
  "\<exists>box badge num hdr its.
     card_shapes i sec = [box, badge, num, hdr, its] \<and>
     is_auto ROUNDED_RECTANGLE box \<and> left_of box = Inches (x_pos i) \<and>
     width_of box = Inches section_width \<and>
     is_auto OVAL badge \<and>
     is_TextBox num \<and> texts num = [str (i + 1)] \<and>
     is_TextBox hdr \<and> texts hdr = [header sec] \<and>
     is_TextBox its \<and>
     texts its = (if items sec = [] then [[]] else map bullet (items sec)) \<and>
     paragraph_count its = max 1 (length (items sec))"
  by (simp add: card_shapes_def Let_def shapes_place blank_slide_def is_auto_def texts_def
      paragraph_count_def first_paragraph_def paragraphs_new_frame
      section_items_texts [OF paragraphs_new_frame(1)]
      items_loop_count [OF paragraphs_new_frame(1)])
    (simp add: new_text_frame_def new_paragraph_def)

lemma sections_loop_step:
  "sections_loop i (sec # rest) sl =
     sections_loop (Suc i) rest (sl\<lparr>shapes := shapes sl @ card_shapes i sec\<rparr>)"
  by (simp add: card_shapes_def Let_def place_def blank_slide_def)

lemma sections_loop_shapes:
  "shapes (sections_loop i secs sl) =
     shapes sl @ concat (map (\<lambda>(k, sec). card_shapes k sec) (enumerate i secs))"
proof (induction secs arbitrary: i sl)
  case Nil
  show ?case by simp
next
  case (Cons sec rest)
  show ?case
    by (simp only: sections_loop_step Cons.IH) simp
qed

lemma cards_skip:
  "\<forall>s \<in> set pre. \<not> is_auto ROUNDED_RECTANGLE s \<Longrightarrow> cards (pre @ rest) = cards rest"
  by (induction pre) simp_all

lemma card_shapes_head:
  "\<exists>box tl. card_shapes i sec = box # tl \<and> is_auto ROUNDED_RECTANGLE box \<and>
     (\<forall>s \<in> set tl. \<not> is_auto ROUNDED_RECTANGLE s)"
  by (simp add: card_shapes_def Let_def shapes_place blank_slide_def is_auto_def)

lemma takeWhile_cards_nil:
  "takeWhile (\<lambda>t. \<not> is_auto ROUNDED_RECTANGLE t)
     (concat (map (\<lambda>(k, sec). card_shapes k sec) (enumerate i secs))) = []"
proof (cases secs)
  case Nil
  then show ?thesis by simp
next
  case (Cons sec rest)
  obtain box tl where "card_shapes i sec = box # tl" "is_auto ROUNDED_RECTANGLE box"
    using card_shapes_head by blast
  then show ?thesis by (simp add: Cons)
qed

lemma cards_concat:
  "cards (concat (map (\<lambda>(k, sec). card_shapes k sec) (enumerate i secs))) =
     map (\<lambda>(k, sec). card_shapes k sec) (enumerate i secs)"
proof (induction secs arbitrary: i)
  case Nil
  show ?case by simp
next
  case (Cons sec rest)
  obtain box tl where c: "card_shapes i sec = box # tl" "is_auto ROUNDED_RECTANGLE box"
      "\<forall>s \<in> set tl. \<not> is_auto ROUNDED_RECTANGLE s"
    using card_shapes_head by blast
  let ?rest = "concat (map (\<lambda>(k, sec). card_shapes k sec) (enumerate (Suc i) rest))"
  have "takeWhile (\<lambda>t. \<not> is_auto ROUNDED_RECTANGLE t) (tl @ ?rest) = tl"
    using c(3) by (simp add: takeWhile_append2 takeWhile_cards_nil)
  moreover have "cards (tl @ ?rest) = cards ?rest"
    using c(3) by (rule cards_skip)
  ultimately show ?case
    using c(2) by (simp add: c(1) Cons.IH)
qed

lemma cards_sections_loop:
  assumes "\<forall>s \<in> set (shapes sl). \<not> is_auto ROUNDED_RECTANGLE s"
  shows "cards (shapes (sections_loop i secs sl)) =
     map (\<lambda>(k, sec). card_shapes k sec) (enumerate i secs)"
  by (simp add: sections_loop_shapes cards_skip [OF assms] cards_concat)

lemma content_slide_heading:
  "\<exists>h. fst (add_content_slide_with_sections logo prs title sections personalized_for) =
         sections_loop 0 sections h \<and>
       (\<forall>s \<in> set (shapes h). \<not> is_auto ROUNDED_RECTANGLE s)"
  unfolding add_content_slide_with_sections_def Let_def fst_conv
  by (rule exI, rule conjI, rule refl)
    (auto simp add: shapes_place shapes_try_add_picture is_auto_def blank_slide_def
      split: add_picture_outcome.split)

lemma heading_no_card:
  "cards (shapes (fst (add_content_slide_with_sections logo prs title sections personalized_for))) =
     map (\<lambda>(k, sec). card_shapes k sec) (enumerate 0 sections)"
proof -
  obtain h where
    "fst (add_content_slide_with_sections logo prs title sections personalized_for) =
       sections_loop 0 sections h"
    "\<forall>s \<in> set (shapes h). \<not> is_auto ROUNDED_RECTANGLE s"
    using content_slide_heading by blast
  then show ?thesis
    by (simp add: cards_sections_loop)
qed

lemma nth_cards:
  assumes "i < length sections"
  shows "cards (shapes (fst (add_content_slide_with_sections logo prs title sections
           personalized_for))) ! i = card_shapes i (sections ! i)"
  using assms by (simp add: heading_no_card nth_enumerate_eq)


section \<open>Cards of a sectioned slide\<close>

lemma is_bullet_bullet: "is_bullet (bullet x)"
  by (simp add: is_bullet_def bullet_def)

lemma filter_is_bullet:
  "filter is_bullet (if xs = [] then [[]] else map bullet xs) = map bullet xs"
proof -
  have "filter is_bullet (map bullet xs) = map bullet xs"
    by (induction xs) (simp_all add: is_bullet_bullet)
  then show ?thesis
    by (simp add: is_bullet_def)
qed

lemma ovals_sections_loop:
  "length (filter (is_auto OVAL) (shapes (sections_loop i secs sl))) =
     length (filter (is_auto OVAL) (shapes sl)) + length secs"
proof (induction secs arbitrary: i sl)
  case Nil
  show ?case by simp
next
  case (Cons sec rest)
  obtain box badge num hdr its where
    "card_shapes i sec = [box, badge, num, hdr, its]" "is_auto ROUNDED_RECTANGLE box"
    "is_auto OVAL badge" "is_TextBox num" "is_TextBox hdr" "is_TextBox its"
    using card_shapes_form [of i sec] by blast
  then have "length (filter (is_auto OVAL) (card_shapes i sec)) = 1"
    by (auto simp add: is_auto_def)
  then show ?case
    by (simp only: sections_loop_step Cons.IH) simp
qed

lemma content_slide_ovals:
  "length (filter (is_auto OVAL)
     (shapes (fst (add_content_slide_with_sections logo prs title sections personalized_for)))) =
   length sections"
  by (auto simp add: add_content_slide_with_sections_def Let_def ovals_sections_loop
      shapes_place shapes_try_add_picture is_auto_def blank_slide_def
      split: add_picture_outcome.split)

text \<open>
  C1. A slide rendered from N sections has exactly N cards and exactly N badges. Card
  \<open>i\<close> is five shapes: the rounded rectangle, one oval badge, one textbox whose only
  line is the number \<open>i + 1\<close>, one textbox whose only line is the section's header, and
  one textbox whose bullet lines are the section's items, each behind U+00BB and a
  space, in order: as many bullet lines as the section has items. These are all its
  lines, except that for a section without items the textbox keeps the one empty line a
  new textbox has, which is no bullet line.
\<close>

theorem sectioned_slide_cards:
  "length (cards (shapes (fst (add_content_slide_with_sections logo prs title sections
       personalized_for)))) = length sections \<and>
   length (filter (is_auto OVAL) (shapes (fst (add_content_slide_with_sections logo prs title
       sections personalized_for)))) = length sections \<and>
   (\<forall>i < length sections. \<exists>box badge num hdr its.
      cards (shapes (fst (add_content_slide_with_sections logo prs title sections
        personalized_for))) ! i = [box, badge, num, hdr, its] \<and>
      is_auto ROUNDED_RECTANGLE box \<and>
      is_auto OVAL badge \<and>
      is_TextBox num \<and> texts num = [str (i + 1)] \<and>
      is_TextBox hdr \<and> texts hdr = [header (sections ! i)] \<and>
      is_TextBox its \<and>
      texts its = (if items (sections ! i) = [] then [[]] else map bullet (items (sections ! i))) \<and>
      filter is_bullet (texts its) = map bullet (items (sections ! i)) \<and>
      length (filter is_bullet (texts its)) = length (items (sections ! i)))"
proof (intro conjI allI impI)
  show "length (cards (shapes (fst (add_content_slide_with_sections logo prs title sections
       personalized_for)))) = length sections"
    by (simp add: heading_no_card)
next
  show "length (filter (is_auto OVAL) (shapes (fst (add_content_slide_with_sections logo prs
       title sections personalized_for)))) = length sections"
    by (rule content_slide_ovals)
next
  fix i
  assume i: "i < length sections"
  obtain box badge num hdr its where c:
    "card_shapes i (sections ! i) = [box, badge, num, hdr, its]"
    "is_auto ROUNDED_RECTANGLE box" "is_auto OVAL badge"
    "is_TextBox num" "texts num = [str (i + 1)]"
    "is_TextBox hdr" "texts hdr = [header (sections ! i)]"
    "is_TextBox its"
    "texts its = (if items (sections ! i) = [] then [[]] else map bullet (items (sections ! i)))"
    using card_shapes_form [of i "sections ! i"] by blast
  have "filter is_bullet (texts its) = map bullet (items (sections ! i))"
    unfolding c(9) by (rule filter_is_bullet)
  with c show "\<exists>box badge num hdr its.
      cards (shapes (fst (add_content_slide_with_sections logo prs title sections
        personalized_for))) ! i = [box, badge, num, hdr, its] \<and>
      is_auto ROUNDED_RECTANGLE box \<and>
      is_auto OVAL badge \<and>
      is_TextBox num \<and> texts num = [str (i + 1)] \<and>
      is_TextBox hdr \<and> texts hdr = [header (sections ! i)] \<and>
      is_TextBox its \<and>
      texts its = (if items (sections ! i) = [] then [[]] else map bullet (items (sections ! i))) \<and>
      filter is_bullet (texts its) = map bullet (items (sections ! i)) \<and>
      length (filter is_bullet (texts its)) = length (items (sections ! i))"
    by (simp add: nth_cards [OF i])
qed

theorem sectioned_slide_cards_witness:
  "(1::nat) < length [\<lparr>header = ascii ''A'', items = [ascii ''x'', ascii ''y'']\<rparr>,
                      \<lparr>header = ascii ''B'', items = []\<rparr>] \<and>
   (\<exists>box badge num hdr its.
      cards (shapes (fst (add_content_slide_with_sections unavailable Presentation (ascii ''T'')
        [\<lparr>header = ascii ''A'', items = [ascii ''x'', ascii ''y'']\<rparr>,
         \<lparr>header = ascii ''B'', items = []\<rparr>] None))) ! 1 = [box, badge, num, hdr, its] \<and>
      is_auto ROUNDED_RECTANGLE box \<and> is_auto OVAL badge \<and>
      is_TextBox num \<and> texts num = [[50]] \<and>
      is_TextBox hdr \<and> texts hdr = [[66]] \<and>
      is_TextBox its \<and> texts its = [[]] \<and> filter is_bullet (texts its) = [])"
proof -
  let ?S = "[\<lparr>header = ascii ''A'', items = [ascii ''x'', ascii ''y'']\<rparr>,
             \<lparr>header = ascii ''B'', items = []\<rparr>]"
  have len: "(1::nat) < length ?S" by simp
  have s2: "str (Suc (Suc 0)) = [50]" by (simp add: str.simps)
  from sectioned_slide_cards [of unavailable Presentation "ascii ''T''" ?S None]
  have "\<forall>i < length ?S. \<exists>box badge num hdr its.
      cards (shapes (fst (add_content_slide_with_sections unavailable Presentation (ascii ''T'')
        ?S None))) ! i = [box, badge, num, hdr, its] \<and>
      is_auto ROUNDED_RECTANGLE box \<and>
      is_auto OVAL badge \<and>
      is_TextBox num \<and> texts num = [str (i + 1)] \<and>
      is_TextBox hdr \<and> texts hdr = [header (?S ! i)] \<and>
      is_TextBox its \<and>
      texts its = (if items (?S ! i) = [] then [[]] else map bullet (items (?S ! i))) \<and>
      filter is_bullet (texts its) = map bullet (items (?S ! i)) \<and>
      length (filter is_bullet (texts its)) = length (items (?S ! i))"
    by blast
  from this [rule_format, OF len] show ?thesis
    using len by (simp add: s2 ascii_def)
qed


section \<open>When the logo cannot be loaded\<close>

lemma card_shapes_no_picture: "filter (\<lambda>s. \<not> is_Picture s) (card_shapes i sec) = card_shapes i sec"
  by (simp add: card_shapes_def Let_def shapes_place blank_slide_def)

lemma cards_no_picture:
  "filter (\<lambda>s. \<not> is_Picture s) (concat (map (\<lambda>(k, sec). card_shapes k sec) (enumerate i secs))) =
     concat (map (\<lambda>(k, sec). card_shapes k sec) (enumerate i secs))"
  by (induction secs arbitrary: i) (simp_all add: card_shapes_no_picture)

lemma card_shapes_pictures: "filter is_Picture (card_shapes i sec) = []"
  by (simp add: card_shapes_def Let_def shapes_place blank_slide_def)

lemma cards_pictures:
  "filter is_Picture (concat (map (\<lambda>(k, sec). card_shapes k sec) (enumerate i secs))) = []"
  by (induction secs arbitrary: i) (simp_all add: card_shapes_pictures)

lemma title_slide_without_logo:
  "without_logo (fst (add_title_slide logo prs title subtitle tagline)) =
     shapes (fst (add_title_slide unavailable prs title subtitle tagline))"
  by (simp add: without_logo_def add_title_slide_def Let_def shapes_place shapes_try_add_picture
      unavailable_def blank_slide_def split: add_picture_outcome.split)

lemma two_column_slide_without_logo:
  "without_logo (fst (add_two_column_slide logo prs title left_title left_items right_title
       right_items)) =
     shapes (fst (add_two_column_slide unavailable prs title left_title left_items right_title
       right_items))"
  by (simp add: without_logo_def add_two_column_slide_def Let_def shapes_place
      shapes_try_add_picture unavailable_def blank_slide_def split: add_picture_outcome.split)

lemma content_slide_without_logo:
  "without_logo (fst (add_content_slide_with_sections logo prs title sections personalized_for)) =
     shapes (fst (add_content_slide_with_sections unavailable prs title sections
       personalized_for))"
  by (simp add: without_logo_def add_content_slide_with_sections_def Let_def shapes_place
      shapes_try_add_picture sections_loop_shapes cards_no_picture unavailable_def
      blank_slide_def split: add_picture_outcome.split)

lemma title_slide_no_picture:
  "filter is_Picture (shapes (fst (add_title_slide unavailable prs title subtitle tagline))) = []"
  by (simp add: add_title_slide_def Let_def shapes_place shapes_try_add_picture unavailable_def blank_slide_def)

lemma two_column_slide_no_picture:
  "filter is_Picture (shapes (fst (add_two_column_slide unavailable prs title left_title
       left_items right_title right_items))) = []"
  by (simp add: add_two_column_slide_def Let_def shapes_place shapes_try_add_picture
      unavailable_def blank_slide_def)

lemma content_slide_no_picture:
  "filter is_Picture (shapes (fst (add_content_slide_with_sections unavailable prs title sections
       personalized_for))) = []"
  by (simp add: add_content_slide_with_sections_def Let_def shapes_place shapes_try_add_picture
      sections_loop_shapes cards_pictures unavailable_def blank_slide_def)

text \<open>
  C4. The renderers are total functions, and a call of \<^verbatim>\<open>add_picture\<close> that raises is one
  of the two outcomes they handle: nothing is raised out of them. Whatever the logo
  resource does, the shapes of the slide other than the picture are, in number, order,
  position and content, the shapes of the slide rendered when the logo cannot be loaded,
  and that slide holds no picture.
\<close>

theorem logo_failure_changes_nothing_else:
  "without_logo (fst (add_title_slide logo prs title subtitle tagline)) =
     shapes (fst (add_title_slide unavailable prs title subtitle tagline)) \<and>
   without_logo (fst (add_two_column_slide logo prs title left_title left_items right_title
       right_items)) =
     shapes (fst (add_two_column_slide unavailable prs title left_title left_items right_title
       right_items)) \<and>
   without_logo (fst (add_content_slide_with_sections logo prs title sections personalized_for)) =
     shapes (fst (add_content_slide_with_sections unavailable prs title sections
       personalized_for)) \<and>
   filter is_Picture (shapes (fst (add_title_slide unavailable prs title subtitle tagline))) = [] \<and>
   filter is_Picture (shapes (fst (add_two_column_slide unavailable prs title left_title
       left_items right_title right_items))) = [] \<and>
   filter is_Picture (shapes (fst (add_content_slide_with_sections unavailable prs title sections
       personalized_for))) = []"
  by (intro conjI title_slide_without_logo two_column_slide_without_logo
      content_slide_without_logo title_slide_no_picture two_column_slide_no_picture
      content_slide_no_picture)


section \<open>Optional text\<close>

lemma textboxes_sections_loop:
  "length (filter is_TextBox (shapes (sections_loop i secs sl))) =
     length (filter is_TextBox (shapes sl)) + 3 * length secs"
proof (induction secs arbitrary: i sl)
  case Nil
  show ?case by simp
next
  case (Cons sec rest)
  have "length (filter is_TextBox (card_shapes i sec)) = 3"
    by (simp add: card_shapes_def Let_def shapes_place blank_slide_def)
  then show ?case
    by (simp only: sections_loop_step Cons.IH) simp
qed

lemma title_slide_textboxes:
  "map texts (textboxes (fst (add_title_slide logo prs title subtitle tagline))) =
     [[title], [subtitle]] @ (if truthy tagline then [[the tagline]] else [])"
  by (simp add: textboxes_def texts_def add_title_slide_def Let_def shapes_place
      shapes_try_add_picture blank_slide_def first_paragraph_def new_text_frame_def
      split: add_picture_outcome.split)

lemma content_slide_textboxes:
  "length (textboxes (fst (add_content_slide_with_sections logo prs title sections
       personalized_for))) =
     (if truthy personalized_for then 2 else 1) + 3 * length sections"
  by (simp add: textboxes_def add_content_slide_with_sections_def Let_def shapes_place
      shapes_try_add_picture blank_slide_def textboxes_sections_loop
      split: add_picture_outcome.split)

text \<open>
  C10. The tagline and the personalization note are tested for truth, not for presence:
  the empty string is rendered exactly as no value is. The title slide then has two
  textboxes, title and subtitle, and a third one only for a tagline that is a non-empty
  string; the sectioned slide has one textbox besides the three of each card, and a
  second one only for a note that is a non-empty string.
\<close>

theorem empty_string_is_no_value:
  "add_title_slide logo prs title subtitle (Some []) =
     add_title_slide logo prs title subtitle None \<and>
   add_content_slide_with_sections logo prs title sections (Some []) =
     add_content_slide_with_sections logo prs title sections None \<and>
   map texts (textboxes (fst (add_title_slide logo prs title subtitle tagline))) =
     [[title], [subtitle]] @
       (if tagline = None \<or> tagline = Some [] then [] else [[the tagline]]) \<and>
   length (textboxes (fst (add_content_slide_with_sections logo prs title sections
       personalized_for))) =
     (if personalized_for = None \<or> personalized_for = Some [] then 1 else 2) +
       3 * length sections"
proof (intro conjI)
  show "add_title_slide logo prs title subtitle (Some []) =
     add_title_slide logo prs title subtitle None"
    by (simp add: add_title_slide_def truthy_def)
  show "add_content_slide_with_sections logo prs title sections (Some []) =
     add_content_slide_with_sections logo prs title sections None"
    by (simp add: add_content_slide_with_sections_def truthy_def)
  have t: "truthy x \<longleftrightarrow> \<not> (x = None \<or> x = Some [])" for x
    by (cases x) (simp_all add: truthy_def)
  show "map texts (textboxes (fst (add_title_slide logo prs title subtitle tagline))) =
     [[title], [subtitle]] @
       (if tagline = None \<or> tagline = Some [] then [] else [[the tagline]])"
    by (simp add: title_slide_textboxes t)
  show "length (textboxes (fst (add_content_slide_with_sections logo prs title sections
       personalized_for))) =
     (if personalized_for = None \<or> personalized_for = Some [] then 1 else 2) +
       3 * length sections"
    by (simp add: content_slide_textboxes t)
qed

theorem empty_string_is_no_value_witness:
  "map texts (textboxes (fst (add_title_slide unavailable Presentation (ascii ''A'') (ascii ''B'')
       (Some [])))) = [[[65]], [[66]]] \<and>
   map texts (textboxes (fst (add_title_slide unavailable Presentation (ascii ''A'') (ascii ''B'')
       (Some (ascii ''C''))))) = [[[65]], [[66]], [[67]]] \<and>
   length (textboxes (fst (add_content_slide_with_sections unavailable Presentation (ascii ''A'')
       [] (Some [])))) = 1"
proof -
  note a = empty_string_is_no_value [where logo = unavailable and prs = Presentation
      and title = "ascii ''A''" and subtitle = "ascii ''B''" and sections = "[]"
      and tagline = "Some []" and personalized_for = "Some []"]
  note b = empty_string_is_no_value [where logo = unavailable and prs = Presentation
      and title = "ascii ''A''" and subtitle = "ascii ''B''" and sections = "[]"
      and tagline = "Some (ascii ''C'')" and personalized_for = "Some []"]
  show ?thesis
    using a [THEN conjunct2, THEN conjunct2] b [THEN conjunct2, THEN conjunct2, THEN conjunct1]
    by (simp add: ascii_def)
qed


section \<open>The title slide without tagline and logo\<close>

text \<open>
  C2 as stated fails: the slide of \<^verbatim>\<open>add_title_slide(prs, "A", "B")\<close> without a logo
  holds five shapes, not four.
\<close>

theorem title_slide_four_shapes_counterexample:
  "length (shapes (fst (add_title_slide unavailable Presentation (ascii ''A'') (ascii ''B'') None)))
     \<noteq> 4"
  by (simp add: add_title_slide_def Let_def shapes_place shapes_try_add_picture unavailable_def
      blank_slide_def truthy_def)

text \<open>
  C2, amended. Without a tagline and without a logo the title slide holds exactly five
  shapes: three rectangles (background, accent bar, bottom bar) and two textboxes, whose
  texts are the title and the subtitle. There is no picture and no further textbox, so
  neither a tagline nor a personalization line.
\<close>

theorem title_slide_five_shapes:
  "length (shapes (fst (add_title_slide unavailable prs title subtitle None))) = 5 \<and>
   length (filter (is_auto RECTANGLE)
     (shapes (fst (add_title_slide unavailable prs title subtitle None)))) = 3 \<and>
   map texts (textboxes (fst (add_title_slide unavailable prs title subtitle None))) =
     [[title], [subtitle]] \<and>
   filter is_Picture (shapes (fst (add_title_slide unavailable prs title subtitle None))) = []"
proof (intro conjI)
  show "length (shapes (fst (add_title_slide unavailable prs title subtitle None))) = 5"
    by (simp add: add_title_slide_def Let_def shapes_place shapes_try_add_picture unavailable_def
        blank_slide_def truthy_def)
  show "length (filter (is_auto RECTANGLE)
     (shapes (fst (add_title_slide unavailable prs title subtitle None)))) = 3"
    by (simp add: add_title_slide_def Let_def shapes_place shapes_try_add_picture unavailable_def
        blank_slide_def truthy_def is_auto_def)
  show "map texts (textboxes (fst (add_title_slide unavailable prs title subtitle None))) =
     [[title], [subtitle]]"
    by (simp add: title_slide_textboxes truthy_def)
  show "filter is_Picture (shapes (fst (add_title_slide unavailable prs title subtitle None))) = []"
    by (rule title_slide_no_picture)
qed


section \<open>The two-column slide\<close>

lemma left_items_texts:
  assumes "paragraphs tf = [p]"
  shows "map ptext (paragraphs (items_loop left_item 0 xs tf)) =
     (if xs = [] then [ptext p] else xs)"
proof (cases xs)
  case Nil
  with assms show ?thesis by simp
next
  case (Cons x rest)
  have "map ptext (map (\<lambda>(j, x). left_item j x new_paragraph) (enumerate n rest)) = rest" for n
    by (induction rest arbitrary: n) (simp_all add: left_item_def)
  then show ?thesis
    unfolding Cons
    by (subst items_loop_0_Cons [OF assms]) (simp add: left_item_def)
qed

lemma right_items_texts:
  assumes "paragraphs tf = [p]"
  shows "map ptext (paragraphs (items_loop right_item 0 xs tf)) =
     (if xs = [] then [ptext p] else xs)"
proof (cases xs)
  case Nil
  with assms show ?thesis by simp
next
  case (Cons x rest)
  have "map ptext (map (\<lambda>(j, x). right_item j x new_paragraph) (enumerate n rest)) = rest" for n
    by (induction rest arbitrary: n) (simp_all add: right_item_def)
  then show ?thesis
    unfolding Cons
    by (subst items_loop_0_Cons [OF assms]) (simp add: right_item_def)
qed

lemma two_column_textboxes:
  "\<exists>t lh lc rh rc.
     textboxes (fst (add_two_column_slide logo prs title left_title left_items right_title
       right_items)) = [t, lh, lc, rh, rc] \<and>
     texts t = [title] \<and> texts lh = [left_title] \<and> texts rh = [right_title] \<and>
     texts lc = (if left_items = [] then [[]] else left_items) \<and>
     texts rc = (if right_items = [] then [[]] else right_items) \<and>
     paragraph_count lc = max 1 (length left_items) \<and>
     paragraph_count rc = max 1 (length right_items) \<and>
     (left_items = [] \<longrightarrow> paragraphs (frame lc) = [new_paragraph]) \<and>
     (right_items = [] \<longrightarrow> paragraphs (frame rc) = [new_paragraph])"
  by (simp add: textboxes_def texts_def paragraph_count_def add_two_column_slide_def Let_def
      shapes_place shapes_try_add_picture blank_slide_def first_paragraph_def
      paragraphs_new_frame
      left_items_texts [OF paragraphs_new_frame(1)]
      right_items_texts [OF paragraphs_new_frame(1)]
      items_loop_count [OF paragraphs_new_frame(1)]
      split: add_picture_outcome.split)
    (simp add: new_text_frame_def new_paragraph_def)

lemma two_column_panels:
  "map fill_rgb (filter (is_auto ROUNDED_RECTANGLE)
     (shapes (fst (add_two_column_slide logo prs title left_title left_items right_title
        right_items)))) = [Some LIGHT_GRAY, Some NAVY]"
  by (simp add: add_two_column_slide_def Let_def shapes_place shapes_try_add_picture
      blank_slide_def is_auto_def split: add_picture_outcome.split)

text \<open>
  C5. \<^verbatim>\<open>add_two_column_slide(prs, "T", "L", ["a", "b"], "R", ["c"])\<close>: the slide has
  five textboxes, in paint order the title, the left header, the left content, the right
  header and the right content. The left content has exactly the two paragraphs
  \<^verbatim>\<open>a\<close> and \<^verbatim>\<open>b\<close>, the right content exactly the one paragraph \<^verbatim>\<open>c\<close>. The two panels
  are filled with \<open>LIGHT_GRAY\<close> and \<open>NAVY\<close>, which differ.
\<close>

theorem two_column_scenario:
  "(\<exists>t lh lc rh rc.
      textboxes (fst (add_two_column_slide logo prs (ascii ''T'') (ascii ''L'')
        [ascii ''a'', ascii ''b''] (ascii ''R'') [ascii ''c''])) = [t, lh, lc, rh, rc] \<and>
      texts lh = [ascii ''L''] \<and> texts rh = [ascii ''R''] \<and>
      paragraph_count lc = 2 \<and> texts lc = [ascii ''a'', ascii ''b''] \<and>
      paragraph_count rc = 1 \<and> texts rc = [ascii ''c'']) \<and>
   (\<exists>left_box right_box.
      filter (is_auto ROUNDED_RECTANGLE)
        (shapes (fst (add_two_column_slide logo prs (ascii ''T'') (ascii ''L'')
          [ascii ''a'', ascii ''b''] (ascii ''R'') [ascii ''c'']))) = [left_box, right_box] \<and>
      fill_rgb left_box = Some LIGHT_GRAY \<and> fill_rgb right_box = Some NAVY \<and>
      fill_rgb left_box \<noteq> fill_rgb right_box)"
proof (rule conjI)
  obtain t lh lc rh rc where
    "textboxes (fst (add_two_column_slide logo prs (ascii ''T'') (ascii ''L'')
        [ascii ''a'', ascii ''b''] (ascii ''R'') [ascii ''c''])) = [t, lh, lc, rh, rc]"
    "texts lh = [ascii ''L'']" "texts rh = [ascii ''R'']"
    "texts lc = (if [ascii ''a'', ascii ''b''] = [] then [[]] else [ascii ''a'', ascii ''b''])"
    "texts rc = (if [ascii ''c''] = [] then [[]] else [ascii ''c''])"
    "paragraph_count lc = max 1 (length [ascii ''a'', ascii ''b''])"
    "paragraph_count rc = max 1 (length [ascii ''c''])"
    using two_column_textboxes [of logo prs "ascii ''T''" "ascii ''L''"
        "[ascii ''a'', ascii ''b'']" "ascii ''R''" "[ascii ''c'']"]
    by blast
  then show "\<exists>t lh lc rh rc.
      textboxes (fst (add_two_column_slide logo prs (ascii ''T'') (ascii ''L'')
        [ascii ''a'', ascii ''b''] (ascii ''R'') [ascii ''c''])) = [t, lh, lc, rh, rc] \<and>
      texts lh = [ascii ''L''] \<and> texts rh = [ascii ''R''] \<and>
      paragraph_count lc = 2 \<and> texts lc = [ascii ''a'', ascii ''b''] \<and>
      paragraph_count rc = 1 \<and> texts rc = [ascii ''c'']"
    by simp
next
  have "map fill_rgb (filter (is_auto ROUNDED_RECTANGLE)
     (shapes (fst (add_two_column_slide logo prs (ascii ''T'') (ascii ''L'')
          [ascii ''a'', ascii ''b''] (ascii ''R'') [ascii ''c''])))) = [Some LIGHT_GRAY, Some NAVY]"
    by (rule two_column_panels)
  moreover have "LIGHT_GRAY \<noteq> NAVY"
    by (simp add: LIGHT_GRAY_def NAVY_def)
  ultimately show "\<exists>left_box right_box.
      filter (is_auto ROUNDED_RECTANGLE)
        (shapes (fst (add_two_column_slide logo prs (ascii ''T'') (ascii ''L'')
          [ascii ''a'', ascii ''b''] (ascii ''R'') [ascii ''c'']))) = [left_box, right_box] \<and>
      fill_rgb left_box = Some LIGHT_GRAY \<and> fill_rgb right_box = Some NAVY \<and>
      fill_rgb left_box \<noteq> fill_rgb right_box"
    by (auto simp add: map_eq_Cons_conv)
qed


section \<open>Empty item lists\<close>

lemma card_shapes_items:
  "\<exists>box badge num hdr its.
     card_shapes i sec = [box, badge, num, hdr, its] \<and>
     is_TextBox its \<and>
     paragraph_count its = max 1 (length (items sec)) \<and>
     (items sec = [] \<longrightarrow> paragraphs (frame its) = [new_paragraph])"
  by (simp add: card_shapes_def Let_def shapes_place blank_slide_def paragraph_count_def
      paragraphs_new_frame items_loop_count [OF paragraphs_new_frame(1)])

text \<open>
  C9. The content textbox of a panel and the items textbox of a card are created
  whatever the item list is, and hold \<open>max 1 (length items)\<close> paragraphs: one per item,
  and for an empty list the one paragraph a new textbox has, untouched.
\<close>

theorem items_textbox_paragraph_count:
  "(\<exists>t lh lc rh rc.
      textboxes (fst (add_two_column_slide logo prs title left_title left_items right_title
        right_items)) = [t, lh, lc, rh, rc] \<and>
      paragraph_count lc = max 1 (length left_items) \<and>
      paragraph_count rc = max 1 (length right_items) \<and>
      (left_items = [] \<longrightarrow> paragraphs (frame lc) = [new_paragraph]) \<and>
      (right_items = [] \<longrightarrow> paragraphs (frame rc) = [new_paragraph])) \<and>
   (\<forall>i < length sections. \<exists>box badge num hdr its.
      cards (shapes (fst (add_content_slide_with_sections logo prs title sections
        personalized_for))) ! i = [box, badge, num, hdr, its] \<and>
      is_TextBox its \<and>
      paragraph_count its = max 1 (length (items (sections ! i))) \<and>
      (items (sections ! i) = [] \<longrightarrow> paragraphs (frame its) = [new_paragraph]))"
proof (intro conjI allI impI)
  show "\<exists>t lh lc rh rc.
      textboxes (fst (add_two_column_slide logo prs title left_title left_items right_title
        right_items)) = [t, lh, lc, rh, rc] \<and>
      paragraph_count lc = max 1 (length left_items) \<and>
      paragraph_count rc = max 1 (length right_items) \<and>
      (left_items = [] \<longrightarrow> paragraphs (frame lc) = [new_paragraph]) \<and>
      (right_items = [] \<longrightarrow> paragraphs (frame rc) = [new_paragraph])"
    using two_column_textboxes [of logo prs title left_title left_items right_title right_items]
    by blast
next
  fix i
  assume "i < length sections"
  then show "\<exists>box badge num hdr its.
      cards (shapes (fst (add_content_slide_with_sections logo prs title sections
        personalized_for))) ! i = [box, badge, num, hdr, its] \<and>
      is_TextBox its \<and>
      paragraph_count its = max 1 (length (items (sections ! i))) \<and>
      (items (sections ! i) = [] \<longrightarrow> paragraphs (frame its) = [new_paragraph])"
    using card_shapes_items [of i "sections ! i"] by (simp add: nth_cards)
qed

theorem items_textbox_paragraph_count_witness:
  "(\<exists>t lh lc rh rc.
      textboxes (fst (add_two_column_slide unavailable Presentation (ascii ''T'') (ascii ''L'') []
        (ascii ''R'') [ascii ''c'', ascii ''d''])) = [t, lh, lc, rh, rc] \<and>
      paragraph_count lc = 1 \<and> paragraph_count rc = 2 \<and>
      paragraphs (frame lc) = [new_paragraph]) \<and>
   (0::nat) < length [\<lparr>header = ascii ''H'', items = []\<rparr>] \<and>
   (\<exists>box badge num hdr its.
      cards (shapes (fst (add_content_slide_with_sections unavailable Presentation (ascii ''T'')
        [\<lparr>header = ascii ''H'', items = []\<rparr>] None))) ! 0 = [box, badge, num, hdr, its] \<and>
      is_TextBox its \<and> paragraph_count its = 1 \<and> paragraphs (frame its) = [new_paragraph])"
proof -
  let ?S = "[\<lparr>header = ascii ''H'', items = []\<rparr>]"
  note w = items_textbox_paragraph_count [where logo = unavailable and prs = Presentation
      and title = "ascii ''T''" and left_title = "ascii ''L''" and left_items = "[]"
      and right_title = "ascii ''R''" and right_items = "[ascii ''c'', ascii ''d'']"
      and sections = ?S and personalized_for = None]
  have len: "(0::nat) < length ?S" by simp
  show ?thesis
    using w [THEN conjunct1] w [THEN conjunct2, rule_format, OF len] len
    by (simp add: numeral_2_eq_2)
qed


section \<open>Determinism\<close>



section \<open>Where the cards are\<close>


lemma x_pos_values:
  "x_pos 0 = PyFloat 4503599627370496 (- 53)"
  "x_pos (Suc 0) = PyFloat 5291729562160333 (- 50)"
  "x_pos 2 = PyFloat 5010254585449677 (- 49)"
  "x_pos 3 = PyFloat 7374644389819188 (- 49)"
  "x_pos 4 = PyFloat 4869517097094349 (- 48)"
  "x_pos 5 = PyFloat 6051711999279104 (- 48)"
  "x_pos 6 = PyFloat 7233906901463860 (- 48)"
  "x_pos 7 = PyFloat 8416101803648615 (- 48)"
  by (simp_all add: x_pos_def section_width_def section_gap_def start_x_def float_eval)

lemma x_pos_inches:
  "Inches (x_pos 0) = 457200"
  "Inches (x_pos (Suc 0)) = 4297680"
  "Inches (x_pos 2) = 8138160"
  "Inches (x_pos 3) = 11978640"
  "Inches (x_pos 4) = 15819120"
  "Inches (x_pos 5) = 19659600"
  "Inches (x_pos 6) = 23500080"
  "Inches (x_pos 7) = 27340560"
  by (simp_all add: x_pos_values Inches_def float_eval)

lemma card_offsets_inches:
  "Inches (fadd (x_pos 0) (dec 15 2)) = 594360"
  "Inches (fadd (x_pos 0) (dec 7 1)) = 1097280"
  "Inches (fadd (x_pos 0) (dec 2 1)) = 640080"
  "Inches (fadd (x_pos (Suc 0)) (dec 15 2)) = 4434840"
  "Inches (fadd (x_pos (Suc 0)) (dec 7 1)) = 4937760"
  "Inches (fadd (x_pos (Suc 0)) (dec 2 1)) = 4480560"
  "Inches (fadd (x_pos 2) (dec 15 2)) = 8275320"
  "Inches (fadd (x_pos 2) (dec 7 1)) = 8778240"
  "Inches (fadd (x_pos 2) (dec 2 1)) = 8321040"
  by (simp_all add: x_pos_values Inches_def float_eval)

lemma card_widths_inches:
  "Inches section_width = 3566160"
  "Inches section_gap = 274320"
  "Inches start_x = 457200"
  "Inches (fadd section_width section_gap) = 3840480"
  "Inches (fsub section_width (dec 9 1)) = 2743200"
  "Inches (fsub section_width (dec 4 1)) = 3200400"
  by (simp_all add: section_width_def section_gap_def start_x_def Inches_def float_eval)


lemma x_pos_formula_small:
  "x_pos 0 = start_x"
  "x_pos (Suc 0) = fadd start_x (fadd section_width section_gap)"
  "x_pos 2 = fadd start_x (fmul (float_of_int 2) (fadd section_width section_gap))"
  by (simp_all add: x_pos_def section_width_def section_gap_def start_x_def float_eval)


lemma card_box_left: "left_of (hd (card_shapes i sec)) = Inches (x_pos i)"
  by (simp add: card_shapes_def Let_def shapes_place blank_slide_def)

lemma card_number_text: "texts (card_shapes i sec ! 2) = [str (i + 1)]"
  by (simp add: card_shapes_def Let_def shapes_place blank_slide_def texts_def
      first_paragraph_def new_text_frame_def)

lemma map_enumerate_fst: "map (\<lambda>(k, x). f k) (enumerate n xs) = map f [n..<n + length xs]"
proof -
  have "map f (map fst (enumerate n xs)) = map (\<lambda>(k, x). f k) (enumerate n xs)"
    by (simp only: map_map comp_def split_def)
  then show ?thesis
    by (simp only: map_fst_enumerate)
qed

lemma card_lefts:
  "map (\<lambda>c. left_of (hd c))
     (cards (shapes (fst (add_content_slide_with_sections logo prs title sections
        personalized_for)))) =
   map (\<lambda>i. Inches (x_pos i)) [0..<length sections]"
proof -
  have "map (\<lambda>c. left_of (hd c)) (map (\<lambda>(k, sec). card_shapes k sec) (enumerate 0 sections)) =
      map (\<lambda>(k, sec). Inches (x_pos k)) (enumerate 0 sections)"
    by (simp add: split_def card_box_left)
  then show ?thesis
    by (simp add: heading_no_card map_enumerate_fst)
qed

lemma card_numbers:
  "map (\<lambda>c. texts (c ! 2))
     (cards (shapes (fst (add_content_slide_with_sections logo prs title sections
        personalized_for)))) =
   map (\<lambda>i. [str (i + 1)]) [0..<length sections]"
proof -
  have "map (\<lambda>c. texts (c ! 2)) (map (\<lambda>(k, sec). card_shapes k sec) (enumerate 0 sections)) =
      map (\<lambda>(k, sec). [str (k + 1)]) (enumerate 0 sections)"
    by (simp add: split_def card_number_text)
  then show ?thesis
    by (simp add: heading_no_card map_enumerate_fst)
qed

lemma digits_value_append: "digits_value (ds @ [d]) = 10 * digits_value ds + (d - 48)"
  by (simp add: digits_value_def)

lemma digits_value_str: "digits_value (str n) = n"
proof (induction n rule: str.induct)
  case (1 n)
  show ?case
  proof (cases "n < 10")
    case True
    then show ?thesis
      by (subst str.simps) (simp add: digits_value_def)
  next
    case False
    with "1" have "digits_value (str (n div 10)) = n div 10" by simp
    with False show ?thesis
      by (subst str.simps) (simp add: digits_value_append)
  qed
qed

lemma str_digits: "list_all (\<lambda>d. 48 \<le> d \<and> d \<le> 57) (str n)"
proof (induction n rule: str.induct)
  case (1 n)
  show ?case
  proof (cases "n < 10")
    case True
    then show ?thesis
      by (subst str.simps) simp
  next
    case False
    with "1" have "list_all (\<lambda>d. 48 \<le> d \<and> d \<le> 57) (str (n div 10))" by simp
    moreover have "n mod 10 \<le> 9" by arith
    ultimately show ?thesis using False
      by (subst str.simps) simp
  qed
qed

lemma str_small:
  "str (Suc 0) = ascii ''1''"
  "str (Suc (Suc 0)) = ascii ''2''"
  "str (Suc (Suc (Suc 0))) = ascii ''3''"
  by (simp_all add: str.simps ascii_def)

text \<open>
  C6. With three sections the slide has three cards, whose rounded rectangles start at
  \<open>start_x\<close>, \<open>start_x + (section_width + section_gap)\<close> and
  \<open>start_x + 2 * (section_width + section_gap)\<close>, computed in floats and converted by
  \<open>Inches\<close>: 457200, 4297680 and 8138160 EMU. Their number textboxes read 1, 2, 3 in
  that order. For any list of sections the number textbox of card \<open>i\<close> reads
  \<open>str (i + 1)\<close>, and \<open>str n\<close> is the decimal rendering of \<open>n\<close>: a string of digits
  whose value is \<open>n\<close>.
\<close>

theorem three_sections_scenario:
  "length (cards (shapes (fst (add_content_slide_with_sections logo prs title [a, b, c]
       personalized_for)))) = 3 \<and>
   map (\<lambda>c. left_of (hd c))
     (cards (shapes (fst (add_content_slide_with_sections logo prs title [a, b, c]
        personalized_for)))) =
     [Inches start_x,
      Inches (fadd start_x (fadd section_width section_gap)),
      Inches (fadd start_x (fmul (float_of_int 2) (fadd section_width section_gap)))] \<and>
   map (\<lambda>c. left_of (hd c))
     (cards (shapes (fst (add_content_slide_with_sections logo prs title [a, b, c]
        personalized_for)))) = [457200, 4297680, 8138160] \<and>
   map (\<lambda>c. texts (c ! 2))
     (cards (shapes (fst (add_content_slide_with_sections logo prs title [a, b, c]
        personalized_for)))) = [[ascii ''1''], [ascii ''2''], [ascii ''3'']] \<and>
   map (\<lambda>c. texts (c ! 2))
     (cards (shapes (fst (add_content_slide_with_sections logo prs title sections
        personalized_for)))) = map (\<lambda>i. [str (i + 1)]) [0..<length sections] \<and>
   digits_value (str n) = n \<and>
   list_all (\<lambda>d. 48 \<le> d \<and> d \<le> 57) (str n)"
proof -
  have three: "[0..<length [a, b, c]] = [0, Suc 0, 2]"
    by (simp add: upt_rec numeral_2_eq_2)
  have three': "[0..<length [a, b, c]] = [0, Suc 0, Suc (Suc 0)]"
    by (simp add: upt_rec)
  have "length (cards (shapes (fst (add_content_slide_with_sections logo prs title [a, b, c]
       personalized_for)))) = 3"
    by (simp add: heading_no_card)
  moreover have "map (\<lambda>c. left_of (hd c))
     (cards (shapes (fst (add_content_slide_with_sections logo prs title [a, b, c]
        personalized_for)))) =
     [Inches start_x,
      Inches (fadd start_x (fadd section_width section_gap)),
      Inches (fadd start_x (fmul (float_of_int 2) (fadd section_width section_gap)))]"
    unfolding card_lefts three
    by (simp only: list.map x_pos_formula_small)
  moreover have "map (\<lambda>c. left_of (hd c))
     (cards (shapes (fst (add_content_slide_with_sections logo prs title [a, b, c]
        personalized_for)))) = [457200, 4297680, 8138160]"
    unfolding card_lefts three
    by (simp only: list.map x_pos_inches)
  moreover have "map (\<lambda>c. texts (c ! 2))
     (cards (shapes (fst (add_content_slide_with_sections logo prs title [a, b, c]
        personalized_for)))) = [[ascii ''1''], [ascii ''2''], [ascii ''3'']]"
    unfolding card_numbers three'
    by (simp add: str_small)
  ultimately show ?thesis
    by (simp only: card_numbers digits_value_str str_digits simp_thms)
qed

theorem three_sections_scenario_witness:
  "map (\<lambda>c. texts (c ! 2))
     (cards (shapes (fst (add_content_slide_with_sections unavailable Presentation (ascii ''T'')
        [\<lparr>header = ascii ''A'', items = []\<rparr>, \<lparr>header = ascii ''B'', items = []\<rparr>,
         \<lparr>header = ascii ''C'', items = [ascii ''x'']\<rparr>] None)))) = [[[49]], [[50]], [[51]]] \<and>
   map (\<lambda>c. left_of (hd c))
     (cards (shapes (fst (add_content_slide_with_sections unavailable Presentation (ascii ''T'')
        [\<lparr>header = ascii ''A'', items = []\<rparr>, \<lparr>header = ascii ''B'', items = []\<rparr>,
         \<lparr>header = ascii ''C'', items = [ascii ''x'']\<rparr>] None)))) = [457200, 4297680, 8138160] \<and>
   digits_value (str 12) = 12 \<and>
   list_all (\<lambda>d. 48 \<le> d \<and> d \<le> 57) [49, 50 :: nat]"
proof -
  note w = three_sections_scenario [where logo = unavailable and prs = Presentation
      and title = "ascii ''T''" and a = "\<lparr>header = ascii ''A'', items = []\<rparr>"
      and b = "\<lparr>header = ascii ''B'', items = []\<rparr>"
      and c = "\<lparr>header = ascii ''C'', items = [ascii ''x'']\<rparr>"
      and personalized_for = None and sections = "[]" and n = 12]
  have s12: "str 12 = [49, 50]"
    by (simp add: str.simps)
  have "map (\<lambda>c. texts (c ! 2))
     (cards (shapes (fst (add_content_slide_with_sections unavailable Presentation (ascii ''T'')
        [\<lparr>header = ascii ''A'', items = []\<rparr>, \<lparr>header = ascii ''B'', items = []\<rparr>,
         \<lparr>header = ascii ''C'', items = [ascii ''x'']\<rparr>] None)))) = [[[49]], [[50]], [[51]]]"
    using w [THEN conjunct2, THEN conjunct2, THEN conjunct2, THEN conjunct1]
    by (simp add: ascii_def)
  moreover note w [THEN conjunct2, THEN conjunct2, THEN conjunct1]
  moreover have "digits_value (str 12) = 12"
    using w by (elim conjE)
  moreover have "list_all (\<lambda>d. 48 \<le> d \<and> d \<le> 57) [49, 50 :: nat]"
    using w unfolding s12 by (elim conjE)
  ultimately show ?thesis
    by (intro conjI)
qed





section \<open>The deck on its canvas\<close>

lemmas Inches_eval = Inches_literals [unfolded One_nat_def] card_offsets_inches [unfolded One_nat_def]
  card_widths_inches [unfolded One_nat_def] x_pos_inches

lemma title_slide_in_canvas:
  assumes "slide_width P = 12191695" "slide_height P = 6858000"
    and "s \<in> set (shapes (fst (add_title_slide logo prs title subtitle tagline)))"
  shows "if is_Picture s
         then 0 \<le> left_of s \<and> 0 \<le> top_of s \<and> top_of s + height_of s \<le> slide_height P
         else in_canvas P s"
  using assms
  by (auto simp add: add_title_slide_def Let_def shapes_place shapes_try_add_picture
      blank_slide_def in_canvas_def Inches_eval split: add_picture_outcome.splits if_splits)

lemma two_column_slide_in_canvas:
  assumes "slide_width P = 12191695" "slide_height P = 6858000"
    and "s \<in> set (shapes (fst (add_two_column_slide logo prs title left_title left_items
           right_title right_items)))"
  shows "if is_Picture s
         then 0 \<le> left_of s \<and> 0 \<le> top_of s \<and> top_of s + height_of s \<le> slide_height P
         else in_canvas P s"
  using assms
  by (auto simp add: add_two_column_slide_def Let_def shapes_place shapes_try_add_picture
      blank_slide_def in_canvas_def Inches_eval split: add_picture_outcome.splits if_splits)

lemma card_in_canvas:
  assumes "slide_width P = 12191695" "slide_height P = 6858000"
    and "i < 3" and "s \<in> set (card_shapes i sec)"
  shows "\<not> is_Picture s \<and> in_canvas P s"
proof -
  from \<open>i < 3\<close> have "i = 0 \<or> i = Suc 0 \<or> i = 2" by arith
  then show ?thesis
    using assms(1,2,4)
    by (elim disjE)
      (auto simp add: card_shapes_def Let_def shapes_place blank_slide_def in_canvas_def
        Inches_eval)
qed

lemma in_cards:
  assumes "s \<in> set (concat (map (\<lambda>(k, sec). card_shapes k sec) (enumerate 0 secs)))"
  shows "\<exists>k < length secs. s \<in> set (card_shapes k (secs ! k))"
proof -
  from assms obtain k sec where "(k, sec) \<in> set (enumerate 0 secs)" "s \<in> set (card_shapes k sec)"
    by auto
  then show ?thesis
    by (auto simp add: in_set_enumerate_eq)
qed

lemma content_slide_in_canvas:
  assumes "slide_width P = 12191695" "slide_height P = 6858000"
    and "length sections \<le> 3"
    and "s \<in> set (shapes (fst (add_content_slide_with_sections logo prs title sections
           personalized_for)))"
  shows "if is_Picture s
         then 0 \<le> left_of s \<and> 0 \<le> top_of s \<and> top_of s + height_of s \<le> slide_height P
         else in_canvas P s"
proof -
  obtain h where h:
    "shapes (fst (add_content_slide_with_sections logo prs title sections personalized_for)) =
       h @ concat (map (\<lambda>(k, sec). card_shapes k sec) (enumerate 0 sections))"
    "\<forall>s \<in> set h. if is_Picture s
         then 0 \<le> left_of s \<and> 0 \<le> top_of s \<and> top_of s + height_of s \<le> slide_height P
         else in_canvas P s"
  proof
    show "shapes (fst (add_content_slide_with_sections logo prs title sections
        personalized_for)) =
      shapes (fst (add_content_slide_with_sections logo prs title [] personalized_for)) @
        concat (map (\<lambda>(k, sec). card_shapes k sec) (enumerate 0 sections))"
      by (simp add: add_content_slide_with_sections_def Let_def sections_loop_shapes)
    show "\<forall>s \<in> set (shapes (fst (add_content_slide_with_sections logo prs title []
        personalized_for))). if is_Picture s
         then 0 \<le> left_of s \<and> 0 \<le> top_of s \<and> top_of s + height_of s \<le> slide_height P
         else in_canvas P s"
      using assms(1,2)
      by (auto simp add: add_content_slide_with_sections_def Let_def shapes_place
          shapes_try_add_picture blank_slide_def in_canvas_def Inches_eval Inches_int_def
          split: add_picture_outcome.splits if_splits)
  qed
  from assms(4) consider "s \<in> set h"
    | "s \<in> set (concat (map (\<lambda>(k, sec). card_shapes k sec) (enumerate 0 sections)))"
    unfolding h(1) by auto
  then show ?thesis
  proof cases
    case 1
    with h(2) show ?thesis by blast
  next
    case 2
    then obtain k where "k < length sections" "s \<in> set (card_shapes k (sections ! k))"
      using in_cards by blast
    with assms(3) have "k < 3" by simp
    from card_in_canvas [OF assms(1,2) this \<open>s \<in> set (card_shapes k (sections ! k))\<close>]
    show ?thesis by simp
  qed
qed

lemma title_slide_snd:
  "snd (add_title_slide logo prs title subtitle tagline) =
     prs\<lparr>slides := slides prs @ [fst (add_title_slide logo Presentation title subtitle tagline)]\<rparr>"
  by (simp add: add_title_slide_def Let_def)

lemma two_column_slide_snd:
  "snd (add_two_column_slide logo prs title left_title left_items right_title right_items) =
     prs\<lparr>slides := slides prs @ [fst (add_two_column_slide logo Presentation title left_title
       left_items right_title right_items)]\<rparr>"
  by (simp add: add_two_column_slide_def Let_def)

lemma content_slide_snd:
  "snd (add_content_slide_with_sections logo prs title sections personalized_for) =
     prs\<lparr>slides := slides prs @ [fst (add_content_slide_with_sections logo Presentation title
       sections personalized_for)]\<rparr>"
  by (simp add: add_content_slide_with_sections_def Let_def)

lemma deck_slides:
  "slides (create_presentation logo) =
     [fst (add_title_slide logo Presentation
        (ascii ''Accelerating Growth'' @ [10] @ ascii ''in the AI Era'')
        (ascii ''Distribution Strategy | Investor Engagement | AUM Expansion'')
        (Some (ascii ''Panagora Asset Management  |  Strategic Discussion  |  December 2024''))),
      fst (add_two_column_slide logo Presentation
        (ascii ''The Quantitative Investing Landscape & Panagora'' @ [39] @ ascii ''s Edge'')
        (ascii ''MARKET DYNAMICS'') two_column_left_items
        (ascii ''PANAGORA DIFFERENTIATORS'') two_column_right_items),
      fst (add_content_slide_with_sections logo Presentation
        (ascii ''AI-Era Distribution: Intelligent Lead Management & Engagement'')
        distribution_sections
        (Some (ascii ''Created for Discussion with Tim Stanton''))),
      fst (add_content_slide_with_sections logo Presentation
        (ascii ''Generating Buzz: Thought Leadership & Publicity for Modern Investors'')
        buzz_sections None)]"
  unfolding create_presentation_def Let_def title_slide_snd two_column_slide_snd content_slide_snd
  by (simp add: Presentation_def)

lemma deck_canvas:
  "slide_width (create_presentation logo) = 12191695"
  "slide_height (create_presentation logo) = 6858000"
  unfolding create_presentation_def Let_def title_slide_snd two_column_slide_snd content_slide_snd
  by (simp_all add: Inches_eval)

lemma deck_sections: "length distribution_sections \<le> 3" "length buzz_sections \<le> 3"
  by (simp_all add: distribution_sections_def buzz_sections_def)

lemma deck_shape:
  assumes "sl \<in> set (slides (create_presentation logo))" "s \<in> set (shapes sl)"
  shows "if is_Picture s
         then 0 \<le> left_of s \<and> 0 \<le> top_of s \<and>
           top_of s + height_of s \<le> slide_height (create_presentation logo')
         else in_canvas (create_presentation logo') s"
  using assms unfolding deck_slides
  by (auto simp only: set_simps insert_iff empty_iff
      intro: title_slide_in_canvas [OF deck_canvas] two_column_slide_in_canvas [OF deck_canvas]
        content_slide_in_canvas [OF deck_canvas deck_sections(1)]
        content_slide_in_canvas [OF deck_canvas deck_sections(2)])

lemma deck_without_logo:
  assumes "sl \<in> set (slides (create_presentation unavailable))" "s \<in> set (shapes sl)"
  shows "\<not> is_Picture s"
proof -
  from assms(1) have "filter is_Picture (shapes sl) = []"
    unfolding deck_slides
    by (auto simp only: set_simps insert_iff empty_iff
        intro: title_slide_no_picture two_column_slide_no_picture content_slide_no_picture)
  with assms(2) show ?thesis
    by (simp add: filter_empty_conv)
qed

lemma deck_title_slide_shapes:
  "shapes (hd (slides (create_presentation logo))) =
     AutoShape RECTANGLE 0 0 12191695 6858000 (Some NAVY) LineNoFill #
     AutoShape RECTANGLE 0 0 12191695 137160 (Some GOLD) LineNoFill #
     (case logo 731520 of Raises \<Rightarrow> [] | Places w \<Rightarrow> [Picture 9601200 365760 w 731520]) @
     drop 2 (without_logo (hd (slides (create_presentation logo))))"
  unfolding deck_slides
  by (simp add: add_title_slide_def Let_def shapes_place shapes_try_add_picture blank_slide_def
      without_logo_def Inches_eval split: add_picture_outcome.split)

text \<open>
  C8 as stated fails for the logo: the script gives the picture a height and leaves its
  width to the image. With an image four times as wide as high the picture of the title
  slide starts at 10.5 in and is 3.2 in wide, which ends right of the 13.333 in canvas.
\<close>

theorem deck_logo_counterexample:
  "shapes (hd (slides (create_presentation wide_logo))) ! 2 = Picture 9601200 365760 2926080 731520 \<and>
   slide_width (create_presentation wide_logo) = 12191695 \<and>
   \<not> in_canvas (create_presentation wide_logo)
       (shapes (hd (slides (create_presentation wide_logo))) ! 2)"
  by (simp add: deck_title_slide_shapes deck_canvas wide_logo_def in_canvas_def)

text \<open>
  C8, amended. The script produces four slides on a canvas of 12191695 by 6858000 EMU
  (13.333 in by 7.5 in). Whatever the logo resource does, every shape other than the logo
  picture lies within the canvas, and the logo picture has its left, top and bottom edge
  within the canvas; where its right edge falls depends on the image. When the logo
  cannot be loaded every shape of every slide lies within the canvas.
\<close>

theorem deck_in_canvas:
  "length (slides (create_presentation logo)) = 4 \<and>
   slide_width (create_presentation logo) = 12191695 \<and>
   slide_height (create_presentation logo) = 6858000 \<and>
   (\<forall>sl \<in> set (slides (create_presentation logo)). \<forall>s \<in> set (shapes sl).
      if is_Picture s
      then 0 \<le> left_of s \<and> 0 \<le> top_of s \<and>
        top_of s + height_of s \<le> slide_height (create_presentation logo)
      else in_canvas (create_presentation logo) s) \<and>
   (\<forall>sl \<in> set (slides (create_presentation unavailable)). \<forall>s \<in> set (shapes sl).
      in_canvas (create_presentation unavailable) s)"
proof (intro conjI ballI)
  show "length (slides (create_presentation logo)) = 4"
    by (simp add: deck_slides)
  show "slide_width (create_presentation logo) = 12191695"
    by (rule deck_canvas)
  show "slide_height (create_presentation logo) = 6858000"
    by (rule deck_canvas)
next
  fix sl s
  assume "sl \<in> set (slides (create_presentation logo))" "s \<in> set (shapes sl)"
  then show "if is_Picture s
      then 0 \<le> left_of s \<and> 0 \<le> top_of s \<and>
        top_of s + height_of s \<le> slide_height (create_presentation logo)
      else in_canvas (create_presentation logo) s"
    by (rule deck_shape)
next
  fix sl s
  assume a: "sl \<in> set (slides (create_presentation unavailable))" "s \<in> set (shapes sl)"
  from deck_shape [OF a, of unavailable] deck_without_logo [OF a]
  show "in_canvas (create_presentation unavailable) s"
    by simp
qed

theorem deck_in_canvas_witness:
  "hd (slides (create_presentation wide_logo)) \<in> set (slides (create_presentation wide_logo)) \<and>
   shapes (hd (slides (create_presentation wide_logo))) ! 1 \<in>
     set (shapes (hd (slides (create_presentation wide_logo)))) \<and>
   shapes (hd (slides (create_presentation wide_logo))) ! 2 \<in>
     set (shapes (hd (slides (create_presentation wide_logo)))) \<and>
   in_canvas (create_presentation wide_logo)
     (shapes (hd (slides (create_presentation wide_logo))) ! 1) \<and>
   top_of (shapes (hd (slides (create_presentation wide_logo))) ! 2) +
     height_of (shapes (hd (slides (create_presentation wide_logo))) ! 2) \<le>
     slide_height (create_presentation wide_logo)"
proof -
  have sl: "hd (slides (create_presentation wide_logo)) \<in>
      set (slides (create_presentation wide_logo))"
    by (simp add: deck_slides)
  have s1: "shapes (hd (slides (create_presentation wide_logo))) ! 1 \<in>
      set (shapes (hd (slides (create_presentation wide_logo))))"
    by (simp add: deck_title_slide_shapes wide_logo_def)
  have s2: "shapes (hd (slides (create_presentation wide_logo))) ! 2 \<in>
      set (shapes (hd (slides (create_presentation wide_logo))))"
    by (simp add: deck_title_slide_shapes wide_logo_def)
  have p1: "\<not> is_Picture (shapes (hd (slides (create_presentation wide_logo))) ! 1)"
    by (simp add: deck_title_slide_shapes wide_logo_def)
  have p2: "is_Picture (shapes (hd (slides (create_presentation wide_logo))) ! 2)"
    by (simp add: deck_title_slide_shapes wide_logo_def)
  note w = deck_in_canvas [of wide_logo, THEN conjunct2, THEN conjunct2, THEN conjunct2,
      THEN conjunct1, rule_format, OF sl]
  from w [OF s1] w [OF s2] p1 p2 sl s1 s2 show ?thesis
    by simp
qed

end
